theory Spec2Isabelle
  imports Main
begin

section \<open>models.py: orientation, position, ship\<close>

text \<open>The enumeration \<^verbatim>\<open>Orientation\<close> with its four members.\<close>

datatype Orientation = N | E | S | W

text \<open>\<^verbatim>\<open>Orientation.rotate_left\<close>: the \<^verbatim>\<open>match\<close> of the source, branch by branch.\<close>

fun rotate_left :: "Orientation \<Rightarrow> Orientation" where
  "rotate_left N = W"
| "rotate_left W = S"
| "rotate_left S = E"
| "rotate_left E = N"

text \<open>\<^verbatim>\<open>Orientation.rotate_right\<close>.\<close>

fun rotate_right :: "Orientation \<Rightarrow> Orientation" where
  "rotate_right N = E"
| "rotate_right E = S"
| "rotate_right S = W"
| "rotate_right W = N"

text \<open>\<^verbatim>\<open>Orientation.to_vector\<close>: the change in (x, y) of one step.\<close>

fun to_vector :: "Orientation \<Rightarrow> int \<times> int" where
  "to_vector N = (0, 1)"
| "to_vector E = (1, 0)"
| "to_vector S = (0, -1)"
| "to_vector W = (-1, 0)"

text \<open>\<^verbatim>\<open>Orientation.name\<close>, the member's name as the enum gives it.\<close>

fun name :: "Orientation \<Rightarrow> string" where
  "name N = ''N''"
| "name E = ''E''"
| "name S = ''S''"
| "name W = ''W''"

datatype MoveCommand = L | R | M

text \<open>
  \<^verbatim>\<open>Position\<close> is a frozen dataclass of two Python integers (unbounded, hence \<open>int\<close>),
  compared and hashed by value: a datatype with the two fields as selectors.
\<close>

datatype Position = Position (x: int) (y: int)

text \<open>\<^verbatim>\<open>Position.move\<close>: unpack the vector, add it componentwise.\<close>

definition move :: "Position \<Rightarrow> Orientation \<Rightarrow> Position" where
  "move p orient = (case to_vector orient of (dx, dy) \<Rightarrow> Position (x p + dx) (y p + dy))"

text \<open>
  \<^verbatim>\<open>Ship\<close> is a mutable dataclass. Its methods assign one field of \<^verbatim>\<open>self\<close>; each is
  modelled as the function from the object's fields before the call to its fields after.
\<close>

record Ship =
  position :: Position
  orientation :: Orientation
  sunk :: bool

definition ship_rotate_left :: "Ship \<Rightarrow> Ship" where
  "ship_rotate_left s = s\<lparr>orientation := rotate_left (orientation s)\<rparr>"

definition ship_rotate_right :: "Ship \<Rightarrow> Ship" where
  "ship_rotate_right s = s\<lparr>orientation := rotate_right (orientation s)\<rparr>"

definition move_forward :: "Ship \<Rightarrow> Ship" where
  "move_forward s = s\<lparr>position := move (position s) (orientation s)\<rparr>"

definition sink :: "Ship \<Rightarrow> Ship" where
  "sink s = s\<lparr>sunk := True\<rparr>"

text \<open>
  Python's \<^verbatim>\<open>str\<close> of an integer, which the f-string of \<^verbatim>\<open>Ship.__str__\<close> applies to
  both coordinates: decimal digits, most significant first, a leading minus sign for a
  negative number.
\<close>

definition digit_char :: "nat \<Rightarrow> char" where
  "digit_char d = ''0123456789'' ! d"

fun str_nat :: "nat \<Rightarrow> string" where
  "str_nat n = (if n < 10 then [digit_char n] else str_nat (n div 10) @ [digit_char (n mod 10)])"

declare str_nat.simps [simp del]

definition str_int :: "int \<Rightarrow> string" where
  "str_int i = (if i < 0 then ''-'' @ str_nat (nat (- i)) else str_nat (nat i))"

text \<open>\<^verbatim>\<open>Ship.__str__\<close>.\<close>

definition ship_str :: "Ship \<Rightarrow> string" where
  "ship_str s =
     (let status = (if sunk s then '' SUNK'' else '''')
      in ''('' @ str_int (x (position s)) @ '', '' @ str_int (y (position s)) @ '', ''
           @ name (orientation s) @ '')'' @ status)"

section \<open>game.py: the board\<close>

text \<open>
  Ships are objects: the board's dictionary and its placement list hold references to
  them, a move or a shot assigns fields of the referenced object, and the collision test
  compares references (\<^verbatim>\<open>is not\<close>). So the model has an explicit store from references to
  ship objects, next to the three attributes of \<^verbatim>\<open>Board\<close>: \<^verbatim>\<open>size\<close>, \<^verbatim>\<open>_ships\<close> (a
  dictionary keyed by position) and \<^verbatim>\<open>_initial_ships_order\<close> (a list).
\<close>

type_synonym ref = nat

record world =
  heap :: "ref \<Rightarrow> Ship"
  board_size :: int
  ships :: "Position \<rightharpoonup> ref"
  initial_ships_order :: "ref list"

text \<open>
  \<^verbatim>\<open>BoardError\<close> is the one exception class of the board; the constructors tell its raise
  sites apart and carry what the message is formatted from:
  \<^item> \<open>OutOfBounds\<close>: "Position .. is out of bounds (Board Size: ..)" of \<^verbatim>\<open>add_ship\<close>;
  \<^item> \<open>AlreadyOccupied\<close>: "Position .. is already occupied by .." of \<^verbatim>\<open>add_ship\<close>;
  \<^item> \<open>NoShipAt\<close>: "No ship found at starting position .. for move sequence.";
  \<^item> \<open>StepOutOfBounds\<close>: "Target .. out of bounds (Board: ..) on step ..";
  \<^item> \<open>Collision\<close>: "Collision at .. with ..!".
\<close>

datatype BoardError =
    OutOfBounds Position int
  | AlreadyOccupied Position Ship
  | NoShipAt Position
  | StepOutOfBounds Position int nat
  | Collision Position Ship

text \<open>
  A method call either returns or raises; in both cases the objects are left as the
  statements executed so far made them. The model returns the outcome together with the
  store after the call.
\<close>

type_synonym outcome = "(BoardError + unit) \<times> world"

text \<open>\<^verbatim>\<open>Board.__post_init__\<close>: a size that is not positive raises ValueError (\<open>None\<close>).\<close>

definition new_board :: "(ref \<Rightarrow> Ship) \<Rightarrow> int \<Rightarrow> world option" where
  "new_board h n =
     (if n \<le> 0 then None
      else Some \<lparr>heap = h, board_size = n, ships = Map.empty, initial_ships_order = []\<rparr>)"

definition is_within_bounds :: "world \<Rightarrow> Position \<Rightarrow> bool" where
  "is_within_bounds w p \<longleftrightarrow> 0 \<le> x p \<and> x p < board_size w \<and> 0 \<le> y p \<and> y p < board_size w"

text \<open>\<^verbatim>\<open>Board.add_ship\<close>, called with a reference to a ship object.\<close>

definition add_ship :: "world \<Rightarrow> ref \<Rightarrow> outcome" where
  "add_ship w r =
     (let ship = heap w r in
      if \<not> is_within_bounds w (position ship)
      then (Inl (OutOfBounds (position ship) (board_size w)), w)
      else (case ships w (position ship) of
              Some r' \<Rightarrow> (Inl (AlreadyOccupied (position ship) (heap w r')), w)
            | None \<Rightarrow>
                (Inr (), w\<lparr>ships := (ships w)(position ship \<mapsto> r),
                           initial_ships_order := initial_ships_order w @ [r]\<rparr>)))"

definition get_ship_at :: "world \<Rightarrow> Position \<Rightarrow> ref option" where
  "get_ship_at w p = ships w p"

text \<open>
  \<^verbatim>\<open>Board._simulate_move\<close>. The method builds a new object
  \<^verbatim>\<open>Ship(start.position, start.orientation)\<close> (so with the default \<^verbatim>\<open>sunk = False\<close>),
  which nothing else refers to, runs the commands on it and returns it; of the board it
  only reads \<^verbatim>\<open>size\<close>. The new object is the local value \<open>cur\<close> threaded through the loop,
  \<open>i\<close> is the index of \<^verbatim>\<open>enumerate\<close>.
\<close>

fun simulate_loop :: "world \<Rightarrow> Ship \<Rightarrow> nat \<Rightarrow> MoveCommand list \<Rightarrow> BoardError + Ship" where
  "simulate_loop w cur i [] = Inr cur"
| "simulate_loop w cur i (L # cs) = simulate_loop w (ship_rotate_left cur) (i + 1) cs"
| "simulate_loop w cur i (R # cs) = simulate_loop w (ship_rotate_right cur) (i + 1) cs"
| "simulate_loop w cur i (M # cs) =
     (let potential_next_pos = move (position cur) (orientation cur) in
      if \<not> is_within_bounds w potential_next_pos
      then Inl (StepOutOfBounds potential_next_pos (board_size w) (i + 1))
      else simulate_loop w (move_forward cur) (i + 1) cs)"

definition simulate_move :: "world \<Rightarrow> Ship \<Rightarrow> MoveCommand list \<Rightarrow> BoardError + Ship" where
  "simulate_move w start_ship_state sequence =
     simulate_loop w
       \<lparr>position = position start_ship_state, orientation = orientation start_ship_state,
        sunk = False\<rparr> 0 sequence"

text \<open>
  \<^verbatim>\<open>Board.apply_move_sequence\<close>. A ship object is always truthy, so the two truth tests on
  a looked-up ship are tests against \<^verbatim>\<open>None\<close>. The commit assigns the two fields of the
  moved object, then updates the dictionary when the position changed.
\<close>

definition apply_move_sequence :: "world \<Rightarrow> Position \<Rightarrow> MoveCommand list \<Rightarrow> outcome" where
  "apply_move_sequence w start_pos sequence =
     (case get_ship_at w start_pos of
        None \<Rightarrow> (Inl (NoShipAt start_pos), w)
      | Some ship_to_move \<Rightarrow>
          if sunk (heap w ship_to_move) then (Inr (), w)
          else
            (let original_position = position (heap w ship_to_move) in
             case simulate_move w (heap w ship_to_move) sequence of
               Inl e \<Rightarrow> (Inl e, w)
             | Inr final_simulated_state \<Rightarrow>
                 (let final_position = position final_simulated_state;
                      final_orientation = orientation final_simulated_state;
                      colliding_ship = ships w final_position
                  in
                  if final_position \<noteq> original_position \<and> colliding_ship \<noteq> None
                     \<and> colliding_ship \<noteq> Some ship_to_move
                  then (Inl (Collision final_position (heap w (the colliding_ship))), w)
                  else
                    (let w1 = w\<lparr>heap := (heap w)(ship_to_move :=
                                 (heap w ship_to_move)\<lparr>position := final_position,
                                                        orientation := final_orientation\<rparr>)\<rparr>
                     in
                     if final_position \<noteq> original_position
                     then
                       (let w2 = (if ships w1 original_position = Some ship_to_move
                                  then w1\<lparr>ships := (ships w1)(original_position := None)\<rparr>
                                  else w1)
                        in (Inr (), w2\<lparr>ships := (ships w2)(final_position \<mapsto> ship_to_move)\<rparr>))
                     else (Inr (), w1)))))"

text \<open>\<^verbatim>\<open>Board.apply_shoot\<close>.\<close>

definition apply_shoot :: "world \<Rightarrow> Position \<Rightarrow> outcome" where
  "apply_shoot w target_pos =
     (if \<not> is_within_bounds w target_pos then (Inr (), w)
      else (case get_ship_at w target_pos of
              None \<Rightarrow> (Inr (), w)
            | Some ship_hit \<Rightarrow>
                if \<not> sunk (heap w ship_hit)
                then (Inr (), w\<lparr>heap := (heap w)(ship_hit := sink (heap w ship_hit))\<rparr>)
                else (Inr (), w)))"

text \<open>\<^verbatim>\<open>Board.get_final_ship_states\<close>.\<close>

definition get_final_ship_states :: "world \<Rightarrow> string list" where
  "get_final_ship_states w = map (\<lambda>ship. ship_str (heap w ship)) (initial_ships_order w)"

section \<open>Clients of the board\<close>

text \<open>
  A client holds a board and calls its three mutating methods in any order, going on
  after a \<^verbatim>\<open>BoardError\<close> as \<^verbatim>\<open>main._execute_operation\<close> does: a call is one of the three
  methods with its arguments, and a run threads the store through the calls whatever
  their outcomes. Between the calls of a run nothing assigns to a ship object: the fields
  of a ship change through the board's methods only.
\<close>

datatype call =
    AddShip ref
  | ApplyMoveSequence Position "MoveCommand list"
  | ApplyShoot Position

fun do_call :: "world \<Rightarrow> call \<Rightarrow> outcome" where
  "do_call w (AddShip r) = add_ship w r"
| "do_call w (ApplyMoveSequence p cs) = apply_move_sequence w p cs"
| "do_call w (ApplyShoot p) = apply_shoot w p"

fun run_calls :: "world \<Rightarrow> call list \<Rightarrow> world" where
  "run_calls w [] = w"
| "run_calls w (c # cs) = run_calls (snd (do_call w c)) cs"

text \<open>
  The ships a run places: the arguments of its \<open>AddShip\<close> calls that returned normally, in
  the order of the calls.
\<close>

fun placed :: "world \<Rightarrow> call list \<Rightarrow> ref list" where
  "placed w [] = []"
| "placed w (AddShip r # cs) =
     (if isl (fst (add_ship w r)) then [] else [r]) @ placed (snd (add_ship w r)) cs"
| "placed w (ApplyMoveSequence p sq # cs) = placed (snd (apply_move_sequence w p sq)) cs"
| "placed w (ApplyShoot p # cs) = placed (snd (apply_shoot w p)) cs"

text \<open>
  The invariant of the board (a specification, not code of the repository): every key of
  the dictionary is the position of the ship stored under it, the ships stored in the
  dictionary are those of the placement list, and no ship is listed twice.
\<close>

definition board_ok :: "world \<Rightarrow> bool" where
  "board_ok w \<longleftrightarrow>
     (\<forall>p r. ships w p = Some r \<longrightarrow> position (heap w r) = p)
     \<and> (\<forall>r. r \<in> set (initial_ships_order w) \<longleftrightarrow> (\<exists>p. ships w p = Some r))
     \<and> distinct (initial_ships_order w)"

text \<open>
  A concrete store and board for the examples: ship objects 0 to 3, the third one sunk,
  are placed on a board of size 5; object 4 lies off that board, object 5 on the cell of
  object 3, and the others on the free cell (0, 3).
\<close>

definition fleet :: "ref \<Rightarrow> Ship" where
  "fleet r =
     (if r = 0 then \<lparr>position = Position 1 1, orientation = N, sunk = False\<rparr>
      else if r = 1 then \<lparr>position = Position 1 2, orientation = S, sunk = False\<rparr>
      else if r = 2 then \<lparr>position = Position 1 3, orientation = W, sunk = True\<rparr>
      else if r = 3 then \<lparr>position = Position 4 4, orientation = E, sunk = False\<rparr>
      else if r = 4 then \<lparr>position = Position 7 0, orientation = N, sunk = False\<rparr>
      else if r = 5 then \<lparr>position = Position 4 4, orientation = S, sunk = False\<rparr>
      else \<lparr>position = Position 0 3, orientation = W, sunk = False\<rparr>)"

definition harbour :: world where
  "harbour =
     run_calls \<lparr>heap = fleet, board_size = 5, ships = Map.empty, initial_ships_order = []\<rparr>
       [AddShip 0, AddShip 1, AddShip 2, AddShip 3]"

text \<open>
  The run of \<^verbatim>\<open>test_board_get_final_ship_states\<close>, with one more ship object on the cell
  of the third: a board of size 10, ships at (0, 0, N), (9, 2, E) and (5, 5, S), the move
  MRMLMM from (0, 0) and a shot at (9, 2).
\<close>

definition armada :: "ref \<Rightarrow> Ship" where
  "armada r =
     (if r = 0 then \<lparr>position = Position 0 0, orientation = N, sunk = False\<rparr>
      else if r = 1 then \<lparr>position = Position 9 2, orientation = E, sunk = False\<rparr>
      else \<lparr>position = Position 5 5, orientation = S, sunk = False\<rparr>)"

definition voyage :: "call list" where
  "voyage =
     [AddShip 0, AddShip 1, AddShip 2, AddShip 3,
      ApplyMoveSequence (Position 0 0) [M, R, M, L, M, M], ApplyShoot (Position 9 2)]"

section \<open>Geometry\<close>

text \<open>
  C7. Rotation algebra: \<open>rotate_left\<close> and \<open>rotate_right\<close> undo each other, four
  applications of either give the orientation back, \<open>rotate_left\<close> follows the cycle
  N, W, S, E, N and \<open>rotate_right\<close> the reverse cycle N, E, S, W, N.
\<close>

theorem rotation_algebra:
  "rotate_left (rotate_right orient) = orient
   \<and> rotate_right (rotate_left orient) = orient
   \<and> rotate_left (rotate_left (rotate_left (rotate_left orient))) = orient
   \<and> rotate_right (rotate_right (rotate_right (rotate_right orient))) = orient
   \<and> map rotate_left [N, W, S, E] = [W, S, E, N]
   \<and> map rotate_right [N, E, S, W] = [E, S, W, N]"
  by (cases orient) simp_all

text \<open>
  C8. Translation geometry: \<open>to_vector\<close> gives N = (0, 1), E = (1, 0), S = (0, -1),
  W = (-1, 0); \<open>move p orient\<close> is \<open>p\<close> plus that vector, for every integer position (there
  is no failure value in its type), and it changes exactly one coordinate, by exactly one.
\<close>

theorem move_geometry:
  "to_vector N = (0, 1) \<and> to_vector E = (1, 0) \<and> to_vector S = (0, -1) \<and> to_vector W = (-1, 0)
   \<and> move p orient = Position (x p + fst (to_vector orient)) (y p + snd (to_vector orient))
   \<and> ((x (move p orient) = x p \<and> \<bar>y (move p orient) - y p\<bar> = 1)
       \<or> (y (move p orient) = y p \<and> \<bar>x (move p orient) - x p\<bar> = 1))"
  by (cases orient) (simp_all add: move_def)

section \<open>The board's operations\<close>

lemmas board_simps =
  add_ship_def get_ship_at_def simulate_move_def apply_move_sequence_def apply_shoot_def
  is_within_bounds_def move_def ship_rotate_left_def ship_rotate_right_def move_forward_def
  sink_def Let_def

lemma harbour_eq:
  "harbour = \<lparr>heap = fleet, board_size = 5,
      ships = [Position 1 1 \<mapsto> 0, Position 1 2 \<mapsto> 1, Position 1 3 \<mapsto> 2, Position 4 4 \<mapsto> 3],
      initial_ships_order = [0, 1, 2, 3]\<rparr>"
  by (simp add: harbour_def add_ship_def is_within_bounds_def fleet_def)


lemma simulate_loop_error:
  "simulate_loop w cur i cs = Inl e \<Longrightarrow>
     \<exists>p j. e = StepOutOfBounds p (board_size w) j \<and> \<not> is_within_bounds w p
            \<and> i < j \<and> j \<le> i + length cs"
proof (induction w cur i cs rule: simulate_loop.induct)
  case (1 w cur i)
  then show ?case by simp
next
  case (2 w cur i cs)
  then show ?case by fastforce
next
  case (3 w cur i cs)
  then show ?case by fastforce
next
  case (4 w cur i cs)
  show ?case
  proof (cases "is_within_bounds w (move (position cur) (orientation cur))")
    case True
    with 4 show ?thesis by fastforce
  next
    case False
    with 4 show ?thesis by auto
  qed
qed

text \<open>
  C1. Move atomicity: whenever \<open>apply_move_sequence\<close> raises, the store after the call is
  the store before it: every ship object, the position dictionary and the placement
  list. The error is one of the three of a move: no ship at the start, a step out of
  bounds, a collision at the destination.
\<close>

theorem move_atomic:
  assumes "fst (apply_move_sequence w start_pos sequence) = Inl e"
  shows "snd (apply_move_sequence w start_pos sequence) = w
         \<and> (e = NoShipAt start_pos
            \<or> (\<exists>p i. e = StepOutOfBounds p (board_size w) i)
            \<or> (\<exists>p s. e = Collision p s))"
proof (cases "ships w start_pos")
  case None
  with assms show ?thesis
    by (auto simp: apply_move_sequence_def get_ship_at_def)
next
  case (Some r)
  show ?thesis
  proof (cases "simulate_move w (heap w r) sequence")
    case (Inl e')
    then have "\<exists>p i. e' = StepOutOfBounds p (board_size w) i"
      unfolding simulate_move_def by (blast dest: simulate_loop_error)
    with assms Some Inl show ?thesis
      by (auto simp: apply_move_sequence_def get_ship_at_def Let_def split: if_splits)
  next
    case (Inr fin)
    with assms Some show ?thesis
      by (auto simp: apply_move_sequence_def get_ship_at_def Let_def split: if_splits)
  qed
qed

theorem move_atomic_witness:
  "fst (apply_move_sequence harbour (Position 4 4) [M]) = Inl (StepOutOfBounds (Position 5 4) 5 1)
   \<and> snd (apply_move_sequence harbour (Position 4 4) [M]) = harbour
   \<and> fst (apply_move_sequence harbour (Position 1 1) [M]) = Inl (Collision (Position 1 2) (fleet 1))
   \<and> snd (apply_move_sequence harbour (Position 1 1) [M]) = harbour
   \<and> fst (apply_move_sequence harbour (Position 0 0) [M]) = Inl (NoShipAt (Position 0 0))
   \<and> snd (apply_move_sequence harbour (Position 0 0) [M]) = harbour"
proof -
  have a: "fst (apply_move_sequence harbour (Position 4 4) [M]) = Inl (StepOutOfBounds (Position 5 4) 5 1)"
    by (simp add: harbour_eq board_simps fleet_def)
  have b: "fst (apply_move_sequence harbour (Position 1 1) [M]) = Inl (Collision (Position 1 2) (fleet 1))"
    by (simp add: harbour_eq board_simps fleet_def)
  have c: "fst (apply_move_sequence harbour (Position 0 0) [M]) = Inl (NoShipAt (Position 0 0))"
    by (simp add: harbour_eq apply_move_sequence_def get_ship_at_def)
  from a b c move_atomic [OF a] move_atomic [OF b] move_atomic [OF c] show ?thesis by simp
qed

text \<open>
  C10. The start position of a move is never bounds-checked: for every position that is
  not a key of the dictionary, on the board or off it, \<open>apply_move_sequence\<close> raises the
  "no ship found at starting position" error and leaves the store unchanged.
\<close>

theorem move_no_ship:
  assumes "ships w start_pos = None"
  shows "apply_move_sequence w start_pos sequence = (Inl (NoShipAt start_pos), w)"
  using assms by (simp add: apply_move_sequence_def get_ship_at_def)

theorem move_no_ship_witness:
  "\<not> is_within_bounds harbour (Position 7 (-2))
   \<and> apply_move_sequence harbour (Position 7 (-2)) [L, M] = (Inl (NoShipAt (Position 7 (-2))), harbour)"
proof -
  have a: "ships harbour (Position 7 (-2)) = None" by (simp add: harbour_eq)
  have b: "\<not> is_within_bounds harbour (Position 7 (-2))"
    by (simp add: harbour_eq is_within_bounds_def)
  from b move_no_ship [OF a, of "[L, M]"] show ?thesis by simp
qed

text \<open>
  C3. Moving a sunk ship is a silent no-op: when the ship at the start position is sunk,
  \<open>apply_move_sequence\<close> returns normally and the store is unchanged.
\<close>

theorem move_sunk_noop:
  assumes "ships w start_pos = Some r" and "sunk (heap w r)"
  shows "apply_move_sequence w start_pos sequence = (Inr (), w)"
  using assms by (simp add: apply_move_sequence_def get_ship_at_def)

theorem move_sunk_noop_witness:
  "apply_move_sequence harbour (Position 1 3) [M] = (Inr (), harbour)"
proof -
  have a: "ships harbour (Position 1 3) = Some 2" by (simp add: harbour_eq)
  have b: "sunk (heap harbour 2)" by (simp add: harbour_eq fleet_def)
  from move_sunk_noop [OF a b] show ?thesis .
qed

text \<open>The simulation reads nothing of the board but its size.\<close>

lemma simulate_loop_size:
  "board_size w' = board_size w \<Longrightarrow> simulate_loop w' cur i cs = simulate_loop w cur i cs"
  by (induction w cur i cs rule: simulate_loop.induct) (simp_all add: is_within_bounds_def Let_def)

text \<open>
  C2. Only the final destination is collision-checked. Where the simulation runs (a ship
  at the start position that is not sunk) and stays in bounds, \<open>apply_move_sequence\<close>
  raises the collision error if and only if the simulated final position differs from
  the position the ship started from and a different ship object is stored under that
  final position; otherwise it returns normally, so a sequence ending where it started
  never collides. The ships on the cells in between play no part: the condition reads the
  dictionary at the final position only, and the simulation gives the same result on
  every board of the same size, whatever ships it holds. The position the ship started
  from is the \<^verbatim>\<open>position\<close> field of the ship found under \<^verbatim>\<open>start_pos\<close>, which the source
  reads as \<^verbatim>\<open>original_position\<close>.
\<close>

theorem collision_final_only:
  assumes "ships w start_pos = Some r" and "\<not> sunk (heap w r)"
    and "simulate_move w (heap w r) sequence = Inr fin"
  shows "((\<exists>p s. fst (apply_move_sequence w start_pos sequence) = Inl (Collision p s))
            \<longleftrightarrow> position fin \<noteq> position (heap w r)
                \<and> (\<exists>r'. ships w (position fin) = Some r' \<and> r' \<noteq> r))
         \<and> (fst (apply_move_sequence w start_pos sequence) = Inr ()
            \<longleftrightarrow> \<not> (position fin \<noteq> position (heap w r)
                   \<and> (\<exists>r'. ships w (position fin) = Some r' \<and> r' \<noteq> r)))
         \<and> (\<forall>w'. board_size w' = board_size w
               \<longrightarrow> simulate_move w' (heap w r) sequence = Inr fin)"
proof -
  have sim: "\<forall>w'. board_size w' = board_size w
               \<longrightarrow> simulate_move w' (heap w r) sequence = Inr fin"
  proof (intro allI impI)
    fix w' :: world
    assume "board_size w' = board_size w"
    from simulate_loop_size [OF this] assms(3)
    show "simulate_move w' (heap w r) sequence = Inr fin"
      by (simp add: simulate_move_def)
  qed
  have occ: "(ships w (position fin) \<noteq> None \<and> ships w (position fin) \<noteq> Some r)
               \<longleftrightarrow> (\<exists>r'. ships w (position fin) = Some r' \<and> r' \<noteq> r)"
    by (cases "ships w (position fin)") simp_all
  have res: "fst (apply_move_sequence w start_pos sequence)
               = (if position fin \<noteq> position (heap w r) \<and> ships w (position fin) \<noteq> None
                     \<and> ships w (position fin) \<noteq> Some r
                  then Inl (Collision (position fin) (heap w (the (ships w (position fin)))))
                  else Inr ())"
    using assms by (simp add: apply_move_sequence_def get_ship_at_def Let_def)
  show ?thesis
  proof (cases "position fin \<noteq> position (heap w r) \<and> ships w (position fin) \<noteq> None
                  \<and> ships w (position fin) \<noteq> Some r")
    case True
    with res have "fst (apply_move_sequence w start_pos sequence)
                     = Inl (Collision (position fin) (heap w (the (ships w (position fin)))))"
      by simp
    with True occ sim show ?thesis by simp
  next
    case False
    with res have "fst (apply_move_sequence w start_pos sequence) = Inr ()"
      by simp
    with False occ sim show ?thesis by auto
  qed
qed

theorem collision_final_only_witness:
  "simulate_move harbour (heap harbour 0) [M, M, M]
     = Inr \<lparr>position = Position 1 4, orientation = N, sunk = False\<rparr>
   \<and> ships harbour (Position 1 2) = Some 1 \<and> ships harbour (Position 1 3) = Some 2
   \<and> ships harbour (Position 1 4) = None
   \<and> fst (apply_move_sequence harbour (Position 1 1) [M, M, M]) = Inr ()"
proof -
  have a: "ships harbour (Position 1 1) = Some 0" by (simp add: harbour_eq)
  have b: "\<not> sunk (heap harbour 0)" by (simp add: harbour_eq fleet_def)
  have c: "simulate_move harbour (heap harbour 0) [M, M, M]
             = Inr \<lparr>position = Position 1 4, orientation = N, sunk = False\<rparr>"
    by (simp add: harbour_eq fleet_def board_simps)
  have d: "ships harbour (Position 1 4) = None" "ships harbour (Position 1 2) = Some 1"
    "ships harbour (Position 1 3) = Some 2"
    by (simp_all add: harbour_eq)
  from c d collision_final_only [OF a b c] show ?thesis by simp
qed

text \<open>
  C4. \<open>apply_shoot\<close> never raises, and its effect is: nothing changes when the target is
  out of bounds, when no ship is stored under the target, or when the ship stored there
  is already sunk; when an unsunk ship is stored under a target in bounds, the \<^verbatim>\<open>sunk\<close>
  field of that object becomes true and nothing else changes. A second shot at the same
  cell changes nothing more.
\<close>

theorem shoot_effect:
  "fst (apply_shoot w target_pos) = Inr ()
   \<and> (\<not> is_within_bounds w target_pos \<longrightarrow> snd (apply_shoot w target_pos) = w)
   \<and> (ships w target_pos = None \<longrightarrow> snd (apply_shoot w target_pos) = w)
   \<and> (\<forall>r. is_within_bounds w target_pos \<and> ships w target_pos = Some r \<and> \<not> sunk (heap w r)
          \<longrightarrow> snd (apply_shoot w target_pos)
                = w\<lparr>heap := (heap w)(r := (heap w r)\<lparr>sunk := True\<rparr>)\<rparr>)
   \<and> (\<forall>r. ships w target_pos = Some r \<and> sunk (heap w r) \<longrightarrow> snd (apply_shoot w target_pos) = w)
   \<and> snd (apply_shoot (snd (apply_shoot w target_pos)) target_pos) = snd (apply_shoot w target_pos)"
  by (auto simp: apply_shoot_def get_ship_at_def sink_def is_within_bounds_def split: option.splits)

theorem shoot_effect_witness:
  "snd (apply_shoot harbour (Position 1 2)) = harbour\<lparr>heap := fleet(1 := (fleet 1)\<lparr>sunk := True\<rparr>)\<rparr>
   \<and> snd (apply_shoot harbour (Position 1 3)) = harbour
   \<and> snd (apply_shoot harbour (Position 0 0)) = harbour
   \<and> snd (apply_shoot harbour (Position 5 5)) = harbour"
proof -
  have a: "is_within_bounds harbour (Position 1 2) \<and> ships harbour (Position 1 2) = Some 1
           \<and> \<not> sunk (heap harbour 1)"
    by (simp add: harbour_eq is_within_bounds_def fleet_def)
  have b: "ships harbour (Position 1 3) = Some 2 \<and> sunk (heap harbour 2)"
    by (simp add: harbour_eq fleet_def)
  have c: "ships harbour (Position 0 0) = None" by (simp add: harbour_eq)
  have d: "\<not> is_within_bounds harbour (Position 5 5)" by (simp add: harbour_eq is_within_bounds_def)
  have h: "heap harbour = fleet" by (simp add: harbour_eq)
  from a b c d h shoot_effect [of harbour "Position 1 2"] shoot_effect [of harbour "Position 1 3"]
    shoot_effect [of harbour "Position 0 0"] shoot_effect [of harbour "Position 5 5"]
  show ?thesis by simp
qed

text \<open>
  C5. \<open>add_ship\<close> raises if and only if the ship's position is out of bounds or is already
  a key of the dictionary, and then the store is unchanged; on success the ship is stored
  under its position and appended to the placement list; in every case no ship object is
  assigned to.
\<close>

theorem add_ship_effect:
  "(isl (fst (add_ship w r))
      \<longleftrightarrow> \<not> is_within_bounds w (position (heap w r)) \<or> ships w (position (heap w r)) \<noteq> None)
   \<and> (isl (fst (add_ship w r)) \<longrightarrow> snd (add_ship w r) = w)
   \<and> (\<not> isl (fst (add_ship w r))
        \<longrightarrow> fst (add_ship w r) = Inr ()
          \<and> snd (add_ship w r)
             = w\<lparr>ships := (ships w)(position (heap w r) \<mapsto> r),
                 initial_ships_order := initial_ships_order w @ [r]\<rparr>)
   \<and> heap (snd (add_ship w r)) = heap w"
  by (auto simp: add_ship_def Let_def split: option.splits)

theorem add_ship_effect_witness:
  "add_ship harbour 4 = (Inl (OutOfBounds (Position 7 0) 5), harbour)
   \<and> add_ship harbour 5 = (Inl (AlreadyOccupied (Position 4 4) (fleet 3)), harbour)
   \<and> add_ship harbour 6
       = (Inr (), harbour\<lparr>ships := (ships harbour)(Position 0 3 \<mapsto> 6),
                          initial_ships_order := [0, 1, 2, 3, 6]\<rparr>)"
proof -
  have a: "fst (add_ship harbour 4) = Inl (OutOfBounds (Position 7 0) 5)"
    by (simp add: harbour_eq add_ship_def is_within_bounds_def fleet_def)
  have b: "fst (add_ship harbour 5) = Inl (AlreadyOccupied (Position 4 4) (fleet 3))"
    by (simp add: harbour_eq add_ship_def is_within_bounds_def fleet_def)
  have c: "is_within_bounds harbour (position (heap harbour 6))
           \<and> ships harbour (position (heap harbour 6)) = None"
    by (simp add: harbour_eq is_within_bounds_def fleet_def)
  have d: "position (heap harbour 6) = Position 0 3" "initial_ships_order harbour = [0, 1, 2, 3]"
    by (simp_all add: harbour_eq fleet_def)
  from a b c d add_ship_effect [of harbour 4] add_ship_effect [of harbour 5]
    add_ship_effect [of harbour 6]
  show ?thesis by (simp add: prod_eq_iff)
qed

section \<open>The invariant of the board\<close>

text \<open>The empty board satisfies the invariant, and each of the three methods keeps it.\<close>

lemma board_ok_empty:
  "board_ok \<lparr>heap = h, board_size = n, ships = Map.empty, initial_ships_order = []\<rparr>"
  by (simp add: board_ok_def)

lemma board_ok_add_ship:
  assumes "board_ok w"
  shows "board_ok (snd (add_ship w r))"
proof (cases "\<not> is_within_bounds w (position (heap w r)) \<or> ships w (position (heap w r)) \<noteq> None")
  case True
  then have "snd (add_ship w r) = w"
    by (auto simp: add_ship_def Let_def)
  with assms show ?thesis by simp
next
  case False
  then have free: "ships w (position (heap w r)) = None" by simp
  from False have res: "snd (add_ship w r)
      = w\<lparr>ships := (ships w)(position (heap w r) \<mapsto> r),
          initial_ships_order := initial_ships_order w @ [r]\<rparr>"
    by (auto simp: add_ship_def Let_def)
  from assms free have new: "r \<notin> set (initial_ships_order w)"
    unfolding board_ok_def by (metis option.distinct(1))
  let ?P = "position (heap w r)"
  let ?w' = "w\<lparr>ships := (ships w)(?P \<mapsto> r),
               initial_ships_order := initial_ships_order w @ [r]\<rparr>"
  have A: "\<forall>p r'. ships ?w' p = Some r' \<longrightarrow> position (heap ?w' r') = p"
    using assms by (simp add: board_ok_def)
  have B: "\<forall>r'. r' \<in> set (initial_ships_order ?w') \<longleftrightarrow> (\<exists>p. ships ?w' p = Some r')"
  proof
    fix r'
    show "r' \<in> set (initial_ships_order ?w') \<longleftrightarrow> (\<exists>p. ships ?w' p = Some r')"
    proof (cases "r' = r")
      case True
      have "ships ?w' ?P = Some r" by simp
      then have "\<exists>p. ships ?w' p = Some r" ..
      with True show ?thesis by simp
    next
      case False
      have "(\<exists>p. ships ?w' p = Some r') \<longleftrightarrow> (\<exists>p. ships w p = Some r')"
      proof
        assume "\<exists>p. ships ?w' p = Some r'"
        then obtain p where p: "ships ?w' p = Some r'" ..
        with False have "p \<noteq> ?P" by auto
        with p have "ships w p = Some r'" by simp
        then show "\<exists>p. ships w p = Some r'" ..
      next
        assume "\<exists>p. ships w p = Some r'"
        then obtain p where p: "ships w p = Some r'" ..
        with free have "p \<noteq> ?P" by auto
        with p have "ships ?w' p = Some r'" by simp
        then show "\<exists>p. ships ?w' p = Some r'" ..
      qed
      with False assms show ?thesis by (simp add: board_ok_def)
    qed
  qed
  have C: "distinct (initial_ships_order ?w')"
    using assms new by (simp add: board_ok_def)
  from A B C show ?thesis
    unfolding res board_ok_def by blast
qed

lemma board_ok_apply_shoot:
  assumes "board_ok w"
  shows "board_ok (snd (apply_shoot w target_pos))"
  using assms
  by (auto simp: apply_shoot_def get_ship_at_def sink_def board_ok_def split: option.splits)


lemma board_ok_apply_move_sequence:
  assumes ok: "board_ok w"
  shows "board_ok (snd (apply_move_sequence w start_pos sequence))"
proof (cases "ships w start_pos")
  case None
  with ok show ?thesis
    by (simp add: apply_move_sequence_def get_ship_at_def)
next
  case at_start: (Some r)
  from ok at_start have pos_r: "position (heap w r) = start_pos"
    by (simp add: board_ok_def)
  from ok have keys: "\<And>p r'. ships w p = Some r' \<Longrightarrow> position (heap w r') = p"
    by (simp add: board_ok_def)
  show ?thesis
  proof (cases "sunk (heap w r)")
    case True
    with ok at_start show ?thesis
      by (simp add: apply_move_sequence_def get_ship_at_def)
  next
    case afloat: False
    show ?thesis
    proof (cases "simulate_move w (heap w r) sequence")
      case (Inl e)
      with ok at_start afloat show ?thesis
        by (simp add: apply_move_sequence_def get_ship_at_def)
    next
      case (Inr fin)
      let ?F = "position fin"
      let ?h' = "(heap w)(r := (heap w r)\<lparr>position := ?F, orientation := orientation fin\<rparr>)"
      show ?thesis
      proof (cases "?F = start_pos")
        case True
        have res: "snd (apply_move_sequence w start_pos sequence) = w\<lparr>heap := ?h'\<rparr>"
          using at_start afloat Inr pos_r True
          by (simp add: apply_move_sequence_def get_ship_at_def Let_def)
        have "\<forall>p r'. ships w p = Some r' \<longrightarrow> position (?h' r') = p"
          using keys pos_r True by auto
        with ok show ?thesis
          unfolding res board_ok_def by simp
      next
        case moved: False
        show ?thesis
        proof (cases "ships w ?F")
          case (Some r')
          with keys have "position (heap w r') = ?F" by simp
          with pos_r moved have "r' \<noteq> r" by auto
          with Some at_start afloat Inr pos_r moved
          have "snd (apply_move_sequence w start_pos sequence) = w"
            by (simp add: apply_move_sequence_def get_ship_at_def Let_def)
          with ok show ?thesis by simp
        next
          case None
          let ?w' = "w\<lparr>heap := ?h', ships := (ships w)(start_pos := None, ?F \<mapsto> r)\<rparr>"
          have res: "snd (apply_move_sequence w start_pos sequence) = ?w'"
            using None at_start afloat Inr pos_r moved
            by (simp add: apply_move_sequence_def get_ship_at_def Let_def)
          have other: "ships w p = Some r' \<and> p \<noteq> start_pos \<and> p \<noteq> ?F"
            if "ships ?w' p = Some r'" and "r' \<noteq> r" for p r'
            using that by (auto split: if_splits)
          have A: "\<forall>p r'. ships ?w' p = Some r' \<longrightarrow> position (heap ?w' r') = p"
          proof (intro allI impI)
            fix p r'
            assume a: "ships ?w' p = Some r'"
            show "position (heap ?w' r') = p"
            proof (cases "p = ?F")
              case True
              with a show ?thesis by simp
            next
              case False
              with a have old: "ships w p = Some r'" and "p \<noteq> start_pos"
                by (auto split: if_splits)
              with keys pos_r have "r' \<noteq> r" by auto
              with old keys show ?thesis by simp
            qed
          qed
          have B: "\<forall>r'. r' \<in> set (initial_ships_order ?w') \<longleftrightarrow> (\<exists>p. ships ?w' p = Some r')"
          proof
            fix r'
            show "r' \<in> set (initial_ships_order ?w') \<longleftrightarrow> (\<exists>p. ships ?w' p = Some r')"
            proof (cases "r' = r")
              case True
              have "ships ?w' ?F = Some r" by simp
              then have "\<exists>p. ships ?w' p = Some r" ..
              moreover from ok at_start have "r \<in> set (initial_ships_order w)"
                unfolding board_ok_def by blast
              ultimately show ?thesis using True by simp
            next
              case False
              have "(\<exists>p. ships ?w' p = Some r') \<longleftrightarrow> (\<exists>p. ships w p = Some r')"
              proof
                assume "\<exists>p. ships ?w' p = Some r'"
                then obtain p where "ships ?w' p = Some r'" ..
                with False have "ships w p = Some r'" using other by blast
                then show "\<exists>p. ships w p = Some r'" ..
              next
                assume "\<exists>p. ships w p = Some r'"
                then obtain p where p: "ships w p = Some r'" ..
                with at_start None False have "p \<noteq> start_pos" and "p \<noteq> ?F" by auto
                with p have "ships ?w' p = Some r'" by simp
                then show "\<exists>p. ships ?w' p = Some r'" ..
              qed
              with ok show ?thesis by (simp add: board_ok_def)
            qed
          qed
          have C: "distinct (initial_ships_order ?w')"
            using ok by (simp add: board_ok_def)
          from A B C show ?thesis
            unfolding res board_ok_def by blast
        qed
      qed
    qed
  qed
qed

lemma board_ok_do_call:
  "board_ok w \<Longrightarrow> board_ok (snd (do_call w c))"
  by (cases c) (simp_all add: board_ok_add_ship board_ok_apply_move_sequence board_ok_apply_shoot)

lemma board_ok_run_calls:
  "board_ok w \<Longrightarrow> board_ok (run_calls w cs)"
  by (induction cs arbitrary: w) (simp_all add: board_ok_do_call)


text \<open>The example run, evaluated.\<close>

lemma voyage_run:
  "run_calls \<lparr>heap = armada, board_size = 10, ships = Map.empty, initial_ships_order = []\<rparr> voyage
     = \<lparr>heap = armada
          (0 := \<lparr>position = Position 1 3, orientation = N, sunk = False\<rparr>,
           1 := \<lparr>position = Position 9 2, orientation = E, sunk = True\<rparr>),
        board_size = 10,
        ships = [Position 9 2 \<mapsto> 1, Position 5 5 \<mapsto> 2, Position 1 3 \<mapsto> 0],
        initial_ships_order = [0, 1, 2]\<rparr>"
  by (simp add: voyage_def armada_def board_simps fun_upd_twist)

text \<open>
  C6. Board invariant: on the board reached from a new, empty board by any sequence of
  \<open>add_ship\<close>, \<open>apply_move_sequence\<close> and \<open>apply_shoot\<close> calls, failed ones included, every
  key of the position dictionary is the position of the ship stored under it, no ship is
  stored under two keys, and hence no two ships on the board have the same position.
  Moreover the ships in the dictionary are exactly those of the placement list, each
  listed once.
\<close>

theorem board_invariant:
  assumes "new_board h n = Some w0" and "w = run_calls w0 cs"
  shows "(\<forall>p r. ships w p = Some r \<longrightarrow> position (heap w r) = p)
         \<and> (\<forall>p q r. ships w p = Some r \<and> ships w q = Some r \<longrightarrow> p = q)
         \<and> (\<forall>r r'. r \<in> ran (ships w) \<and> r' \<in> ran (ships w)
                  \<and> position (heap w r) = position (heap w r') \<longrightarrow> r = r')
         \<and> ran (ships w) = set (initial_ships_order w)
         \<and> distinct (initial_ships_order w)"
proof -
  from assms(1) have "board_ok w0"
    by (auto simp: new_board_def board_ok_def split: if_splits)
  with assms(2) have ok: "board_ok w"
    by (simp add: board_ok_run_calls)
  then have keys: "\<forall>p r. ships w p = Some r \<longrightarrow> position (heap w r) = p"
    by (simp add: board_ok_def)
  then have inj: "\<forall>p q r. ships w p = Some r \<and> ships w q = Some r \<longrightarrow> p = q"
    by metis
  from keys have one: "\<forall>r r'. r \<in> ran (ships w) \<and> r' \<in> ran (ships w)
                  \<and> position (heap w r) = position (heap w r') \<longrightarrow> r = r'"
    unfolding ran_def by auto
  from ok have "ran (ships w) = set (initial_ships_order w)"
    unfolding ran_def board_ok_def by auto
  moreover from ok have "distinct (initial_ships_order w)"
    by (simp add: board_ok_def)
  ultimately show ?thesis using keys inj one by blast
qed

theorem board_invariant_witness:
  "ships (run_calls (the (new_board armada 10)) voyage) (Position 1 3) = Some 0
   \<and> position (heap (run_calls (the (new_board armada 10)) voyage) 0) = Position 1 3
   \<and> ships (run_calls (the (new_board armada 10)) voyage) (Position 0 0) = None
   \<and> initial_ships_order (run_calls (the (new_board armada 10)) voyage) = [0, 1, 2]"
proof -
  let ?w0 = "\<lparr>heap = armada, board_size = 10, ships = Map.empty, initial_ships_order = []\<rparr>"
  have nb: "new_board armada 10 = Some ?w0" by (simp add: new_board_def)
  have at: "ships (run_calls ?w0 voyage) (Position 1 3) = Some 0"
    by (simp add: voyage_run)
  have rest: "ships (run_calls ?w0 voyage) (Position 0 0) = None"
    "initial_ships_order (run_calls ?w0 voyage) = [0, 1, 2]"
    by (simp_all add: voyage_run)
  from board_invariant [OF nb refl, of voyage] at
  have "position (heap (run_calls ?w0 voyage) 0) = Position 1 3" by blast
  with at rest nb show ?thesis by simp
qed

section \<open>The final output\<close>

text \<open>
  Only a successful \<open>add_ship\<close> changes the placement list, by appending its argument.
\<close>

lemma order_add_ship:
  "initial_ships_order (snd (add_ship w r))
     = initial_ships_order w @ (if isl (fst (add_ship w r)) then [] else [r])"
  by (simp add: add_ship_def Let_def split: option.splits)

lemma order_apply_move_sequence:
  "initial_ships_order (snd (apply_move_sequence w start_pos sequence)) = initial_ships_order w"
  by (simp add: apply_move_sequence_def get_ship_at_def Let_def split: option.splits sum.splits)

lemma order_apply_shoot:
  "initial_ships_order (snd (apply_shoot w target_pos)) = initial_ships_order w"
  by (simp add: apply_shoot_def get_ship_at_def split: option.splits)

lemma order_run_calls:
  "initial_ships_order (run_calls w cs) = initial_ships_order w @ placed w cs"
proof (induction w cs rule: placed.induct)
  case (1 w)
  show ?case by simp
next
  case (2 w r cs)
  then show ?case by (simp add: order_add_ship)
next
  case (3 w p sq cs)
  then show ?case by (simp add: order_apply_move_sequence)
next
  case (4 w p cs)
  then show ?case by (simp add: order_apply_shoot)
qed

text \<open>
  C9. Final output order and format: after any run from a new board,
  \<open>get_final_ship_states\<close> returns one string per successfully added ship, in the order
  of placement (each ship once), rendered from the ship's current fields, sunk or not;
  the rendering is "(x, y, ORIENTATION)" followed by " SUNK" exactly when the ship is
  sunk.
\<close>

theorem final_ship_states:
  assumes "new_board h n = Some w0" and "w = run_calls w0 cs"
  shows "get_final_ship_states w = map (\<lambda>r. ship_str (heap w r)) (placed w0 cs)
         \<and> distinct (placed w0 cs)
         \<and> (\<forall>s. ship_str s
                  = ''('' @ str_int (x (position s)) @ '', '' @ str_int (y (position s)) @ '', ''
                    @ name (orientation s) @ '')'' @ (if sunk s then '' SUNK'' else ''''))"
proof -
  from assms(1) have start: "initial_ships_order w0 = []" and "board_ok w0"
    by (auto simp: new_board_def board_ok_def split: if_splits)
  then have "board_ok w"
    using assms(2) by (simp add: board_ok_run_calls)
  then have "distinct (initial_ships_order w)"
    by (simp add: board_ok_def)
  moreover have "initial_ships_order w = placed w0 cs"
    using assms(2) start by (simp add: order_run_calls)
  ultimately show ?thesis
    by (simp add: get_final_ship_states_def ship_str_def)
qed

theorem final_ship_states_witness:
  "placed (the (new_board armada 10)) voyage = [0, 1, 2]
   \<and> get_final_ship_states (run_calls (the (new_board armada 10)) voyage)
       = [''(1, 3, N)'', ''(9, 2, E) SUNK'', ''(5, 5, S)'']
   \<and> ship_str \<lparr>position = Position (-12) 340, orientation = W, sunk = True\<rparr>
       = ''(-12, 340, W) SUNK''"
proof -
  let ?w0 = "\<lparr>heap = armada, board_size = 10, ships = Map.empty, initial_ships_order = []\<rparr>"
  have nb: "new_board armada 10 = Some ?w0" by (simp add: new_board_def)
  have pl: "placed ?w0 voyage = [0, 1, 2]"
    by (simp add: voyage_def armada_def board_simps)
  have hp: "heap (run_calls ?w0 voyage) = armada
          (0 := \<lparr>position = Position 1 3, orientation = N, sunk = False\<rparr>,
           1 := \<lparr>position = Position 9 2, orientation = E, sunk = True\<rparr>)"
    by (simp add: voyage_run)
  have digits: "str_int 1 = ''1''" "str_int 3 = ''3''" "str_int 9 = ''9''" "str_int 2 = ''2''"
    "str_int 5 = ''5''" "str_int (-12) = ''-12''" "str_int 340 = ''340''"
    by (simp_all add: str_int_def str_nat.simps digit_char_def)
  from final_ship_states [OF nb refl, of voyage] pl hp nb digits show ?thesis
    by (simp add: armada_def)
qed

end
